theory Spec2Isabelle
  imports Complex_Main "HOL-Library.Char_ord" "HOL-Library.List_Lexorder"
    "HOL-Library.Product_Lexorder"
begin

section \<open>Floating-point cells\<close>

text \<open>
  The numeric columns of the tables are pandas float columns. A finite double is
  idealised as an exact rational (rounding, overflow and the sign of zero are not
  modelled); the three special values are kept, because the code produces them:
  \<open>shift(1)\<close> yields NaN on the first row of a group, and a division by zero yields an
  infinity or NaN instead of raising. The \<open>price\<close> column itself is taken to hold
  finite numbers.
\<close>

datatype fl = Fin rat | PInf | NInf | NaN

fun fl_neg :: "fl \<Rightarrow> fl" where
  "fl_neg (Fin a) = Fin (- a)"
| "fl_neg PInf = NInf"
| "fl_neg NInf = PInf"
| "fl_neg NaN = NaN"

fun fl_add :: "fl \<Rightarrow> fl \<Rightarrow> fl" where
  "fl_add (Fin a) (Fin b) = Fin (a + b)"
| "fl_add (Fin a) PInf = PInf"
| "fl_add (Fin a) NInf = NInf"
| "fl_add PInf (Fin b) = PInf"
| "fl_add PInf PInf = PInf"
| "fl_add PInf NInf = NaN"
| "fl_add NInf (Fin b) = NInf"
| "fl_add NInf PInf = NaN"
| "fl_add NInf NInf = NInf"
| "fl_add NaN y = NaN"
| "fl_add x NaN = NaN"

definition fl_sub :: "fl \<Rightarrow> fl \<Rightarrow> fl" where
  "fl_sub x y = fl_add x (fl_neg y)"

fun fl_mul :: "fl \<Rightarrow> fl \<Rightarrow> fl" where
  "fl_mul (Fin a) (Fin b) = Fin (a * b)"
| "fl_mul (Fin a) PInf = (if a = 0 then NaN else if 0 < a then PInf else NInf)"
| "fl_mul (Fin a) NInf = (if a = 0 then NaN else if 0 < a then NInf else PInf)"
| "fl_mul PInf (Fin b) = (if b = 0 then NaN else if 0 < b then PInf else NInf)"
| "fl_mul NInf (Fin b) = (if b = 0 then NaN else if 0 < b then NInf else PInf)"
| "fl_mul PInf PInf = PInf"
| "fl_mul PInf NInf = NInf"
| "fl_mul NInf PInf = NInf"
| "fl_mul NInf NInf = PInf"
| "fl_mul NaN y = NaN"
| "fl_mul x NaN = NaN"

fun fl_div :: "fl \<Rightarrow> fl \<Rightarrow> fl" where
  "fl_div (Fin a) (Fin b) =
     (if b \<noteq> 0 then Fin (a / b)
      else if a = 0 then NaN else if 0 < a then PInf else NInf)"
| "fl_div (Fin a) PInf = Fin 0"
| "fl_div (Fin a) NInf = Fin 0"
| "fl_div PInf (Fin b) = (if 0 \<le> b then PInf else NInf)"
| "fl_div NInf (Fin b) = (if 0 \<le> b then NInf else PInf)"
| "fl_div PInf PInf = NaN"
| "fl_div PInf NInf = NaN"
| "fl_div NInf PInf = NaN"
| "fl_div NInf NInf = NaN"
| "fl_div NaN y = NaN"
| "fl_div x NaN = NaN"

text \<open>\<open>Series.fillna(v)\<close>: only NaN cells are replaced, infinities stay.\<close>

definition fillna :: "rat \<Rightarrow> fl list \<Rightarrow> fl list" where
  "fillna v xs = map (\<lambda>x. if x = NaN then Fin v else x) xs"

section \<open>Tables\<close>

text \<open>
  A row of the price table returned by \<open>fetch_market_chart\<close> (columns \<open>date\<close>,
  \<open>coin_id\<close>, \<open>vs_currency\<close>, \<open>price\<close>); a date is its day number since 1970-01-01.
  A table is the list of its rows in index order (the index is the default range index,
  as after \<open>pd.concat(frames, ignore_index=True)\<close>).
\<close>

record row =
  date :: int
  coin_id :: string
  vs_currency :: string
  price :: rat

text \<open>A row of the result of \<open>compute_metrics\<close>: the input columns and the derived ones.\<close>

record mrow = row +
  daily_return :: fl
  pct_change :: fl
  ma_7 :: rat
  ma_30 :: rat
  cum_return :: fl
  rolling_max_price :: rat
  drawdown :: fl

section \<open>Grouped transforms\<close>

text \<open>
  \<open>df.groupby("coin_id")[col].transform(f)\<close> (and \<open>.shift(1)\<close>): \<open>f\<close> is applied
  to the values of each group, taken in table order, and each result is put back on the
  row it came from. \<open>group_values\<close> is the series of one group, \<open>group_pos\<close> the
  position of row \<open>i\<close> inside its group.
\<close>

definition group_values :: "string list \<Rightarrow> 'a list \<Rightarrow> string \<Rightarrow> 'a list" where
  "group_values keys vals k = map snd (filter (\<lambda>kv. fst kv = k) (zip keys vals))"

definition group_pos :: "string list \<Rightarrow> nat \<Rightarrow> nat" where
  "group_pos keys i = length (filter (\<lambda>k. k = keys ! i) (take i keys))"

definition group_transform :: "string list \<Rightarrow> 'a list \<Rightarrow> ('a list \<Rightarrow> 'b list) \<Rightarrow> 'b list" where
  "group_transform keys vals f =
     map (\<lambda>i. f (group_values keys vals (keys ! i)) ! group_pos keys i) [0..<length keys]"

section \<open>Series operations\<close>

text \<open>\<open>s.shift(1)\<close> on a price series: NaN first, then the previous value.\<close>

definition shift1 :: "rat list \<Rightarrow> fl list" where
  "shift1 xs = take (length xs) (NaN # map Fin xs)"

text \<open>\<open>s.rolling(w, min_periods=1).mean()\<close>: the mean of the last up to \<open>w\<close> values.\<close>

definition rolling_mean :: "nat \<Rightarrow> rat list \<Rightarrow> rat list" where
  "rolling_mean w xs =
     map (\<lambda>i. let win = drop (Suc i - w) (take (Suc i) xs)
               in sum_list win / of_nat (length win)) [0..<length xs]"

text \<open>
  \<open>s.cumprod()\<close> with the default \<open>skipna=True\<close>: a NaN cell stays NaN in the result
  and is skipped by the running product.
\<close>

fun cumprod_from :: "fl \<Rightarrow> fl list \<Rightarrow> fl list" where
  "cumprod_from acc [] = []"
| "cumprod_from acc (x # xs) =
     (if x = NaN then NaN # cumprod_from acc xs
      else fl_mul acc x # cumprod_from (fl_mul acc x) xs)"

definition cumprod :: "fl list \<Rightarrow> fl list" where
  "cumprod xs = cumprod_from (Fin 1) xs"

text \<open>\<open>s.cummax()\<close> on a series of finite numbers.\<close>

fun cummax_from :: "rat \<Rightarrow> rat list \<Rightarrow> rat list" where
  "cummax_from m [] = []"
| "cummax_from m (x # xs) = max m x # cummax_from (max m x) xs"

definition cummax :: "rat list \<Rightarrow> rat list" where
  "cummax xs = (case xs of [] \<Rightarrow> [] | x # ys \<Rightarrow> x # cummax_from x ys)"

section \<open>compute\_metrics\<close>

text \<open>Line 133: \<open>df["price_lag"] = df.groupby("coin_id")["price"].shift(1)\<close>.\<close>

definition price_lag_col :: "row list \<Rightarrow> fl list" where
  "price_lag_col df = group_transform (map coin_id df) (map price df) shift1"

text \<open>Line 134: \<open>df["daily_return"] = (df["price"] / df["price_lag"]) - 1\<close>, before the fill.\<close>

definition daily_return_col :: "row list \<Rightarrow> fl list" where
  "daily_return_col df =
     map2 (\<lambda>p l. fl_sub (fl_div (Fin p) l) (Fin 1)) (map price df) (price_lag_col df)"

text \<open>Line 135: \<open>df["pct_change"] = df["daily_return"] * 100.0\<close>, before the fill.\<close>

definition pct_change_col :: "row list \<Rightarrow> fl list" where
  "pct_change_col df = map (\<lambda>d. fl_mul d (Fin 100)) (daily_return_col df)"

text \<open>Lines 137 and 138: the grouped rolling means.\<close>

definition ma_col :: "nat \<Rightarrow> row list \<Rightarrow> rat list" where
  "ma_col w df = group_transform (map coin_id df) (map price df) (rolling_mean w)"

text \<open>
  Line 140: the grouped \<open>(1 + s).cumprod() - 1\<close>, computed from the daily returns as
  they are at that line, that is before line 148 fills them.
\<close>

definition cum_return_series :: "fl list \<Rightarrow> fl list" where
  "cum_return_series s = map (\<lambda>x. fl_sub x (Fin 1)) (cumprod (map (fl_add (Fin 1)) s))"

definition cum_return_col :: "row list \<Rightarrow> fl list" where
  "cum_return_col df = group_transform (map coin_id df) (daily_return_col df) cum_return_series"

text \<open>Line 145: the grouped running maximum.\<close>

definition rolling_max_price_col :: "row list \<Rightarrow> rat list" where
  "rolling_max_price_col df = group_transform (map coin_id df) (map price df) cummax"

text \<open>
  Lines 142 to 146: the local function \<open>drawdown\<close> and its one call,
  \<open>drawdown(df["price"])\<close>, on the whole price column of the table (no \<open>groupby\<close>).
\<close>

definition drawdown_series :: "rat list \<Rightarrow> fl list" where
  "drawdown_series series =
     map2 (\<lambda>p m. fl_div (fl_sub (Fin p) (Fin m)) (Fin m)) series (cummax series)"

definition drawdown_col :: "row list \<Rightarrow> fl list" where
  "drawdown_col df = drawdown_series (map price df)"

text \<open>
  The result: the input columns, then the derived ones, \<open>daily_return\<close> and
  \<open>pct_change\<close> filled with 0.0 (lines 148 and 149), \<open>price_lag\<close> dropped (line 150).
\<close>

definition compute_metrics :: "row list \<Rightarrow> mrow list" where
  "compute_metrics df =
     map (\<lambda>i. \<lparr> date = date (df ! i), coin_id = coin_id (df ! i),
                vs_currency = vs_currency (df ! i), price = price (df ! i),
                daily_return = fillna 0 (daily_return_col df) ! i,
                pct_change = fillna 0 (pct_change_col df) ! i,
                ma_7 = ma_col 7 df ! i,
                ma_30 = ma_col 30 df ! i,
                cum_return = cum_return_col df ! i,
                rolling_max_price = rolling_max_price_col df ! i,
                drawdown = drawdown_col df ! i \<rparr>) [0..<length df]"

text \<open>The series of one asset: its rows, in table order.\<close>

definition asset_series :: "string \<Rightarrow> ('a row_scheme) list \<Rightarrow> ('a row_scheme) list" where
  "asset_series c df = filter (\<lambda>r. coin_id r = c) df"

text \<open>
  The table as an object in memory. \<open>compute_metrics\<close> starts with
  \<open>df = df.copy()\<close>: the copy is a new object, every column assignment of lines 133
  to 149 writes to it, and \<open>df.drop(columns=["price_lag"])\<close> returns one more new
  object. A store is the list of the frames allocated so far, the address of a frame
  its index.
\<close>

datatype frame =
  Prices "row list"
  | Working "mrow list" "fl list"
  | Metrics "mrow list"

type_synonym store = "frame list"

definition alloc :: "store \<Rightarrow> frame \<Rightarrow> nat \<times> store" where
  "alloc s f = (length s, s @ [f])"

text \<open>
  The call \<open>compute_metrics(df)\<close> with \<open>df\<close> the price table at address \<open>a\<close>;
  the result is the address of the returned table and the store after the call
  (\<open>None\<close> when \<open>a\<close> is not the address of a price table).
\<close>

definition compute_metrics_store :: "store \<Rightarrow> nat \<Rightarrow> (nat \<times> store) option" where
  "compute_metrics_store s a =
     (if length s \<le> a then None
      else case s ! a of
        Prices df \<Rightarrow>
          (let (b, s1) = alloc s (Prices df);
               s2 = s1[b := Working (compute_metrics df) (price_lag_col df)];
               (c, s3) = alloc s2 (Metrics (compute_metrics df))
           in Some (c, s3))
      | Working rows lag \<Rightarrow> None
      | Metrics rows \<Rightarrow> None)"

section \<open>safe\_request\<close>

text \<open>
  What one call of \<open>requests.get\<close> gives: an exception, or a response with its status
  code and its body as \<open>r.json()\<close> parses it (the body of a 200 response is taken to
  parse). \<open>is_RequestException\<close> says which exceptions the clause
  \<open>except requests.RequestException\<close> catches: \<open>requests.HTTPError\<close>, which
  \<open>raise_for_status\<close> raises, is a subclass of \<open>RequestException\<close>, as are the
  network errors.
\<close>

record 'p response =
  status_code :: nat
  json :: 'p

datatype error =
  RuntimeError
  | HTTPError nat
  | ConnectionError
  | AttributeError

fun is_RequestException :: "error \<Rightarrow> bool" where
  "is_RequestException (HTTPError s) = True"
| "is_RequestException ConnectionError = True"
| "is_RequestException e = False"

text \<open>\<open>Response.raise_for_status()\<close> raises for the 4xx and 5xx codes only.\<close>

definition raise_for_status :: "nat \<Rightarrow> error + unit" where
  "raise_for_status s = (if 400 \<le> s \<and> s < 600 then Inl (HTTPError s) else Inr ())"

text \<open>What the function does besides returning: HTTP requests and sleeps, in order.\<close>

datatype event = Request | Sleep rat

text \<open>Lines 34 to 36 and 42 to 44: \<open>max(1.0, backoff ** i * jitter)\<close>.\<close>

definition wait_time :: "rat \<Rightarrow> nat \<Rightarrow> rat \<Rightarrow> rat" where
  "wait_time backoff i jitter = max 1 (backoff ^ i * jitter)"

text \<open>
  The loop \<open>for i in range(max_retries)\<close> from attempt \<open>i\<close> on, with \<open>n\<close> attempts
  left. \<open>get i\<close> is the outcome of the request of attempt \<open>i\<close>, \<open>jitter i\<close> the value
  \<open>random.uniform(0.5, 1.5)\<close> returns in that attempt. After the last attempt line 47
  raises \<open>RuntimeError\<close>.
\<close>

fun safe_request_loop ::
  "rat \<Rightarrow> (nat \<Rightarrow> error + 'p response) \<Rightarrow> (nat \<Rightarrow> rat) \<Rightarrow> nat \<Rightarrow> nat
    \<Rightarrow> (error + 'p) \<times> event list" where
  "safe_request_loop backoff get jitter i 0 = (Inl RuntimeError, [])"
| "safe_request_loop backoff get jitter i (Suc n) =
     (let rest = safe_request_loop backoff get jitter (Suc i) n;
          wait = wait_time backoff i (jitter i);
          except = (\<lambda>e. if is_RequestException e
                        then (fst rest, Request # Sleep wait # snd rest)
                        else (Inl e, [Request]))
      in case get i of
           Inl e \<Rightarrow> except e
         | Inr r \<Rightarrow>
             if status_code r = 200 then (Inr (json r), [Request])
             else if status_code r \<in> set [429, 500, 502, 503, 504]
               then (fst rest, Request # Sleep wait # snd rest)
             else (case raise_for_status (status_code r) of
                     Inl e \<Rightarrow> except e
                   | Inr u \<Rightarrow> (fst rest, Request # snd rest)))"

definition safe_request ::
  "int \<Rightarrow> rat \<Rightarrow> (nat \<Rightarrow> error + 'p response) \<Rightarrow> (nat \<Rightarrow> rat)
    \<Rightarrow> (error + 'p) \<times> event list" where
  "safe_request max_retries backoff get jitter =
     safe_request_loop backoff get jitter 0 (nat max_retries)"

section \<open>Duplicates\<close>

text \<open>
  \<open>DataFrame.drop_duplicates(subset)\<close>: with \<open>keep="first"\<close>, which is the default, a
  row stays when no earlier row has its key; with \<open>keep="last"\<close>, when no later row has
  it. The rows that stay keep their order.
\<close>

fun drop_seen :: "('a \<Rightarrow> 'k) \<Rightarrow> 'k list \<Rightarrow> 'a list \<Rightarrow> 'a list" where
  "drop_seen key seen [] = []"
| "drop_seen key seen (x # xs) =
     (if key x \<in> set seen then drop_seen key seen xs
      else x # drop_seen key (key x # seen) xs)"

definition drop_duplicates_first :: "('a \<Rightarrow> 'k) \<Rightarrow> 'a list \<Rightarrow> 'a list" where
  "drop_duplicates_first key xs = drop_seen key [] xs"

fun drop_duplicates_last :: "('a \<Rightarrow> 'k) \<Rightarrow> 'a list \<Rightarrow> 'a list" where
  "drop_duplicates_last key [] = []"
| "drop_duplicates_last key (x # xs) =
     (if key x \<in> set (map key xs) then drop_duplicates_last key xs
      else x # drop_duplicates_last key xs)"

section \<open>fetch\_market\_chart\<close>

text \<open>
  Line 123: \<open>pd.to_datetime(ts, unit="ms").dt.date\<close>, the day of an epoch-millisecond
  timestamp (rounded down, also before 1970).
\<close>

definition date_of_ms :: "int \<Rightarrow> int" where
  "date_of_ms timestamp_ms = timestamp_ms div 86400000"

definition chart_row :: "string \<Rightarrow> string \<Rightarrow> int \<times> rat \<Rightarrow> row" where
  "chart_row cid cur tp =
     \<lparr> date = date_of_ms (fst tp), coin_id = cid, vs_currency = cur, price = snd tp \<rparr>"

definition chart_key :: "row \<Rightarrow> string \<times> int" where
  "chart_key r = (coin_id r, date r)"

text \<open>
  Lines 119 to 128, from the list of price points of the response.
  \<open>sort_values\<close> on two columns is a stable sort, as \<open>sort_key\<close> is.
\<close>

definition market_chart_rows :: "string \<Rightarrow> string \<Rightarrow> (int \<times> rat) list \<Rightarrow> row list" where
  "market_chart_rows cid cur prices =
     (if prices = [] then []
      else drop_duplicates_first chart_key (sort_key chart_key (map (chart_row cid cur) prices)))"

text \<open>
  The body of the market-chart response: the value of its key \<open>"prices"\<close>, if it has
  the key (\<open>data.get("prices", [])\<close>). The request uses the defaults of
  \<open>safe_request\<close>, eight attempts and backoff 2.0, and its exception is not caught.
\<close>

definition fetch_market_chart ::
  "(nat \<Rightarrow> error + ((int \<times> rat) list option) response) \<Rightarrow> (nat \<Rightarrow> rat)
    \<Rightarrow> string \<Rightarrow> string \<Rightarrow> (error + row list) \<times> event list" where
  "fetch_market_chart get jitter cid cur =
     (case safe_request 8 2 get jitter of
        (Inl e, tr) \<Rightarrow> (Inl e, tr)
      | (Inr data, tr) \<Rightarrow>
          (Inr (market_chart_rows cid cur (case data of None \<Rightarrow> [] | Some ps \<Rightarrow> ps)), tr))"

section \<open>Metadata\<close>

text \<open>
  A row of the metadata table. A cell is absent (\<open>None\<close>) where the API object has no
  such key, or, in the snapshot read back from the CSV file, where the cell is empty.
\<close>

record meta =
  meta_coin_id :: "string option"
  symbol :: "string option"
  name :: "string option"
  market_cap_rank :: "int option"

text \<open>An object of the \<open>/coins/markets\<close> response, read with \<open>row.get\<close>.\<close>

record api_row =
  api_id :: "string option"
  api_symbol :: "string option"
  api_name :: "string option"
  api_market_cap_rank :: "int option"

datatype markets_json = Markets "api_row list" | NotAList

text \<open>
  The snapshot file \<open>META_CSV\<close>: absent, present but \<open>pd.read_csv\<close> raises, or read as
  a table with the columns the program writes.
\<close>

datatype meta_csv = NoFile | Unreadable | Snapshot "meta list"

text \<open>\<open>str.upper\<close>, \<open>str.title\<close> and \<open>str.replace("-", " ")\<close>, on ASCII strings.\<close>

definition is_lower :: "char \<Rightarrow> bool" where
  "is_lower c = (CHR ''a'' \<le> c \<and> c \<le> CHR ''z'')"

definition is_upper :: "char \<Rightarrow> bool" where
  "is_upper c = (CHR ''A'' \<le> c \<and> c \<le> CHR ''Z'')"

definition char_upper :: "char \<Rightarrow> char" where
  "char_upper c = (if is_lower c then char_of (of_char c - 32 :: nat) else c)"

definition char_lower :: "char \<Rightarrow> char" where
  "char_lower c = (if is_upper c then char_of (of_char c + 32 :: nat) else c)"

definition upper :: "string \<Rightarrow> string" where
  "upper s = map char_upper s"

fun title_from :: "bool \<Rightarrow> string \<Rightarrow> string" where
  "title_from previous_is_cased [] = []"
| "title_from previous_is_cased (c # cs) =
     (if is_lower c
        then (if previous_is_cased then c else char_upper c) # title_from True cs
      else if is_upper c
        then (if previous_is_cased then char_lower c else c) # title_from True cs
      else c # title_from False cs)"

definition title :: "string \<Rightarrow> string" where
  "title s = title_from False s"

definition replace_hyphens :: "string \<Rightarrow> string" where
  "replace_hyphens s = map (\<lambda>c. if c = CHR ''-'' then CHR '' '' else c) s"

text \<open>Lines 50 to 59.\<close>

definition fallback_meta_from_ids :: "string list \<Rightarrow> meta list" where
  "fallback_meta_from_ids coin_ids =
     map (\<lambda>cid. \<lparr> meta_coin_id = Some cid,
                   symbol = Some (upper (take 4 cid)),
                   name = Some (title (replace_hyphens cid)),
                   market_cap_rank = None \<rparr>) coin_ids"

text \<open>\<open>str(x)\<close> of a cell of the \<open>coin_id\<close> column: an absent cell is NaN.\<close>

definition str_cell :: "string option \<Rightarrow> string" where
  "str_cell x = (case x of None \<Rightarrow> ''nan'' | Some s \<Rightarrow> s)"

text \<open>Lines 63 to 71: the snapshot, when it is readable and misses no requested id.\<close>

definition cached :: "meta_csv \<Rightarrow> string list \<Rightarrow> meta list option" where
  "cached csv coin_ids =
     (case csv of
        Snapshot meta_old \<Rightarrow>
          (let have = set (map (\<lambda>m. str_cell (meta_coin_id m)) meta_old);
               missing = filter (\<lambda>c. c \<notin> have) coin_ids
           in if missing = [] then Some meta_old else None)
      | _ \<Rightarrow> None)"

text \<open>
  Lines 90 to 96 and 101 to 107: \<open>pd.concat([old, df_meta])\<close> and \<open>drop_duplicates\<close>
  on \<open>coin_id\<close>; an exception of the read leaves \<open>df_meta\<close> as it is.
\<close>

definition merge_snapshot ::
  "((meta \<Rightarrow> string option) \<Rightarrow> meta list \<Rightarrow> meta list) \<Rightarrow> meta_csv \<Rightarrow> meta list \<Rightarrow> meta list" where
  "merge_snapshot drop_dups csv df_meta =
     (case csv of
        Snapshot old \<Rightarrow> drop_dups meta_coin_id (old @ df_meta)
      | _ \<Rightarrow> df_meta)"

definition meta_of_api :: "api_row \<Rightarrow> meta" where
  "meta_of_api r =
     \<lparr> meta_coin_id = api_id r, symbol = api_symbol r, name = api_name r,
       market_cap_rank = api_market_cap_rank r \<rparr>"

text \<open>
  Lines 75 to 97, the body of the \<open>try\<close>: a sleep of six seconds, the request, the rows
  built from the response (iterating a body that is not a list of objects raises), the
  merge that keeps the fetched row.
\<close>

definition fetch_meta_api ::
  "meta_csv \<Rightarrow> (nat \<Rightarrow> error + markets_json response) \<Rightarrow> (nat \<Rightarrow> rat)
    \<Rightarrow> (error + meta list) \<times> event list" where
  "fetch_meta_api csv get jitter =
     (case safe_request 8 2 get jitter of
        (Inl e, tr) \<Rightarrow> (Inl e, Sleep 6 # tr)
      | (Inr data, tr) \<Rightarrow>
          (case data of
             Markets rows \<Rightarrow>
               (Inr (merge_snapshot drop_duplicates_last csv (map meta_of_api rows)), Sleep 6 # tr)
           | NotAList \<Rightarrow> (Inl AttributeError, Sleep 6 # tr)))"

text \<open>
  \<open>fetch_coin_metadata\<close>: the cached snapshot, or else the \<open>try\<close>, whose handler
  \<open>except Exception\<close> (lines 98 to 108) catches every exception of the body and
  returns the fallback rows merged with the snapshot, the snapshot's row kept.
\<close>

definition fetch_coin_metadata ::
  "meta_csv \<Rightarrow> (nat \<Rightarrow> error + markets_json response) \<Rightarrow> (nat \<Rightarrow> rat) \<Rightarrow> string list
    \<Rightarrow> (error + meta list) \<times> event list" where
  "fetch_coin_metadata csv get jitter coin_ids =
     (case cached csv coin_ids of
        Some meta_old \<Rightarrow> (Inr meta_old, [])
      | None \<Rightarrow>
          (case fetch_meta_api csv get jitter of
             (Inr df_meta, tr) \<Rightarrow> (Inr df_meta, tr)
           | (Inl e, tr) \<Rightarrow>
               (Inr (merge_snapshot drop_duplicates_first csv (fallback_meta_from_ids coin_ids)),
                tr)))"

section \<open>Example tables\<close>

text \<open>A price observation in US dollars, and a table of two assets with interleaved rows.\<close>

definition obs :: "string \<Rightarrow> int \<Rightarrow> rat \<Rightarrow> row" where
  "obs c d p = \<lparr> date = d, coin_id = c, vs_currency = ''usd'', price = p \<rparr>"

definition tbl :: "row list" where
  "tbl = [obs ''x'' 0 10, obs ''y'' 0 5, obs ''x'' 1 20, obs ''y'' 1 1, obs ''x'' 2 10]"

text \<open>A row of a metadata snapshot.\<close>

definition btc_row :: meta where
  "btc_row = \<lparr> meta_coin_id = Some ''bitcoin'', symbol = Some ''btc'',
               name = Some ''Bitcoin'', market_cap_rank = Some 1 \<rparr>"

section \<open>Grouped transforms act on each series alone\<close>

lemma length_group_transform: "length (group_transform keys vals f) = length keys"
  by (simp add: group_transform_def)

lemma length_group_values:
  "length keys \<le> length vals \<Longrightarrow> length (group_values keys vals c) = length (filter (\<lambda>k. k = c) keys)"
proof (induction keys arbitrary: vals)
  case Nil
  then show ?case by (simp add: group_values_def)
next
  case (Cons k ks)
  then obtain v vs where "vals = v # vs" by (cases vals) auto
  with Cons show ?case by (simp add: group_values_def)
qed

lemma group_values_map: "group_values keys (map h xs) c = map h (group_values keys xs c)"
  by (induction keys xs rule: list_induct2') (simp_all add: group_values_def)

lemma group_values_map2:
  "group_values keys (map2 h xs ys) c = map2 h (group_values keys xs c) (group_values keys ys c)"
proof (induction keys arbitrary: xs ys)
  case Nil
  then show ?case by (simp add: group_values_def)
next
  case (Cons k ks)
  show ?case
  proof (cases xs)
    case Nil
    then show ?thesis by (simp add: group_values_def)
  next
    case xs: (Cons x xs')
    show ?thesis
    proof (cases ys)
      case Nil
      then show ?thesis by (simp add: group_values_def)
    next
      case ys: (Cons y ys')
      from Cons [of xs' ys'] show ?thesis
        by (simp add: group_values_def xs ys)
    qed
  qed
qed

lemma group_scatter:
  "length (filter (\<lambda>k. k = c) keys) \<le> length (G c) \<Longrightarrow>
   group_values keys (map (\<lambda>i. G (keys ! i) ! group_pos keys i) [0..<length keys]) c
     = take (length (filter (\<lambda>k. k = c) keys)) (G c)"
proof (induction keys rule: rev_induct)
  case Nil
  then show ?case by (simp add: group_values_def)
next
  case (snoc k ks)
  let ?n = "length ks"
  let ?A = "map (\<lambda>i. G (ks ! i) ! group_pos ks i) [0..<?n]"
  have old: "map (\<lambda>i. G ((ks @ [k]) ! i) ! group_pos (ks @ [k]) i) [0..<?n] = ?A"
    by (simp add: group_pos_def nth_append)
  have new: "group_pos (ks @ [k]) ?n = length (filter (\<lambda>k'. k' = k) ks)"
    by (simp add: group_pos_def)
  have split: "map (\<lambda>i. G ((ks @ [k]) ! i) ! group_pos (ks @ [k]) i) [0..<length (ks @ [k])]
      = ?A @ [G k ! length (filter (\<lambda>k'. k' = k) ks)]"
    using old new by simp
  have IH: "group_values ks ?A c = take (length (filter (\<lambda>k. k = c) ks)) (G c)"
    using snoc by simp
  show ?case
  proof (cases "k = c")
    case True
    with snoc.prems have lt: "length (filter (\<lambda>k. k = c) ks) < length (G c)" by simp
    show ?thesis
      unfolding split using IH True lt
      by (simp add: group_values_def take_Suc_conv_app_nth)
  next
    case False
    show ?thesis
      unfolding split using IH False
      by (simp add: group_values_def)
  qed
qed

lemma group_transform_series:
  assumes "length vals = length keys"
    and "\<And>xs. length (f xs) = length xs"
  shows "group_values keys (group_transform keys vals f) c = f (group_values keys vals c)"
proof -
  have len: "length (f (group_values keys vals c)) = length (filter (\<lambda>k. k = c) keys)"
    using assms by (simp add: length_group_values)
  have "group_values keys (group_transform keys vals f) c
      = take (length (filter (\<lambda>k. k = c) keys)) (f (group_values keys vals c))"
    unfolding group_transform_def
    using group_scatter [of c keys "\<lambda>k. f (group_values keys vals k)"] len by simp
  with len show ?thesis by simp
qed

lemma series_column:
  "map col (asset_series c rows) = group_values (map coin_id rows) (map col rows) c"
  by (induction rows) (simp_all add: asset_series_def group_values_def)

section \<open>The columns of the result\<close>

lemma map_index: "map (\<lambda>i. f (xs ! i)) [0..<length xs] = map f xs"
  by (rule nth_equalityI) simp_all

lemma length_compute_metrics: "length (compute_metrics df) = length df"
  by (simp add: compute_metrics_def)

lemma input_columns:
  "map date (compute_metrics df) = map date df"
  "map coin_id (compute_metrics df) = map coin_id df"
  "map vs_currency (compute_metrics df) = map vs_currency df"
  "map price (compute_metrics df) = map price df"
  by (simp_all add: compute_metrics_def o_def map_index)

lemma length_shift1: "length (shift1 xs) = length xs"
  by (simp add: shift1_def)

lemma length_cummax_from: "length (cummax_from m xs) = length xs"
  by (induction xs arbitrary: m) simp_all

lemma length_cummax: "length (cummax xs) = length xs"
  by (simp add: cummax_def length_cummax_from split: list.split)

lemma length_cumprod_from: "length (cumprod_from a xs) = length xs"
  by (induction xs arbitrary: a) simp_all

lemma length_cum_return_series: "length (cum_return_series s) = length s"
  by (simp add: cum_return_series_def cumprod_def length_cumprod_from)

lemma length_rolling_mean: "length (rolling_mean w xs) = length xs"
  by (simp add: rolling_mean_def)

lemma length_columns:
  "length (price_lag_col df) = length df"
  "length (daily_return_col df) = length df"
  "length (pct_change_col df) = length df"
  "length (ma_col w df) = length df"
  "length (cum_return_col df) = length df"
  "length (rolling_max_price_col df) = length df"
  by (simp_all add: price_lag_col_def daily_return_col_def pct_change_col_def ma_col_def
      cum_return_col_def rolling_max_price_col_def length_group_transform)

lemma length_drawdown_col: "length (drawdown_col df) = length df"
  by (simp add: drawdown_col_def drawdown_series_def length_cummax)

lemma map_nth_upto: "length xs = n \<Longrightarrow> map (\<lambda>i. xs ! i) [0..<n] = xs"
  by (auto simp: map_nth)

lemma derived_columns:
  "map daily_return (compute_metrics df) = fillna 0 (daily_return_col df)"
  "map pct_change (compute_metrics df) = fillna 0 (pct_change_col df)"
  "map ma_7 (compute_metrics df) = ma_col 7 df"
  "map ma_30 (compute_metrics df) = ma_col 30 df"
  "map cum_return (compute_metrics df) = cum_return_col df"
  "map rolling_max_price (compute_metrics df) = rolling_max_price_col df"
  "map drawdown (compute_metrics df) = drawdown_col df"
  by (simp_all add: compute_metrics_def o_def map_nth_upto length_columns fillna_def
      length_drawdown_col)

lemma series_price_lag:
  "group_values (map coin_id df) (price_lag_col df) c = shift1 (map price (asset_series c df))"
  by (simp add: price_lag_col_def group_transform_series length_shift1 series_column)

lemma series_daily_return_raw:
  "group_values (map coin_id df) (daily_return_col df) c =
     map2 (\<lambda>p l. fl_sub (fl_div (Fin p) l) (Fin 1))
       (map price (asset_series c df)) (shift1 (map price (asset_series c df)))"
  by (simp add: daily_return_col_def group_values_map2 series_price_lag series_column)

lemma series_daily_return:
  "map daily_return (asset_series c (compute_metrics df)) =
     fillna 0 (map2 (\<lambda>p l. fl_sub (fl_div (Fin p) l) (Fin 1))
       (map price (asset_series c df)) (shift1 (map price (asset_series c df))))"
  by (simp add: series_column input_columns derived_columns fillna_def group_values_map
      series_daily_return_raw)

lemma series_pct_change:
  "map pct_change (asset_series c (compute_metrics df)) =
     fillna 0 (map (\<lambda>d. fl_mul d (Fin 100)) (map2 (\<lambda>p l. fl_sub (fl_div (Fin p) l) (Fin 1))
       (map price (asset_series c df)) (shift1 (map price (asset_series c df)))))"
  by (simp add: series_column input_columns derived_columns fillna_def group_values_map
      series_daily_return_raw pct_change_col_def)

lemma series_rolling_max_price:
  "map rolling_max_price (asset_series c (compute_metrics df)) =
     cummax (map price (asset_series c df))"
  by (simp add: series_column input_columns derived_columns rolling_max_price_col_def
      group_transform_series length_cummax)

lemma series_cum_return:
  "map cum_return (asset_series c (compute_metrics df)) =
     cum_return_series (map2 (\<lambda>p l. fl_sub (fl_div (Fin p) l) (Fin 1))
       (map price (asset_series c df)) (shift1 (map price (asset_series c df))))"
  by (simp add: series_column input_columns derived_columns cum_return_col_def
      group_transform_series length_cum_return_series length_columns series_daily_return_raw)

lemma series_input:
  "map date (asset_series c (compute_metrics df)) = map date (asset_series c df)"
  "map price (asset_series c (compute_metrics df)) = map price (asset_series c df)"
  by (simp_all add: series_column input_columns)

section \<open>Running maximum and lag\<close>

lemma cummax_from_nth:
  "i < length xs \<Longrightarrow> cummax_from m xs ! i = Max (insert m (set (take (Suc i) xs)))"
proof (induction xs arbitrary: m i)
  case Nil
  then show ?case by simp
next
  case (Cons x xs)
  show ?case
  proof (cases i)
    case 0
    then show ?thesis by (simp add: max.commute)
  next
    case (Suc k)
    with Cons.prems have k: "k < length xs" by simp
    have "cummax_from m (x # xs) ! i = Max (insert (max m x) (set (take (Suc k) xs)))"
      using Cons.IH [OF k] Suc by simp
    also have "\<dots> = Max (insert m (insert x (set (take (Suc k) xs))))"
    proof -
      from k have "set (take (Suc k) xs) \<noteq> {}" by (cases xs) auto
      then show ?thesis by (simp add: max.assoc)
    qed
    finally show ?thesis using Suc by simp
  qed
qed

lemma cummax_nth: "i < length xs \<Longrightarrow> cummax xs ! i = Max (set (take (Suc i) xs))"
proof (cases xs)
  case Nil
  assume "i < length xs"
  with Nil show ?thesis by simp
next
  case (Cons x ys)
  assume i: "i < length xs"
  show ?thesis
  proof (cases i)
    case 0
    with Cons show ?thesis by (simp add: cummax_def)
  next
    case (Suc k)
    with i Cons have k: "k < length ys" by simp
    have "cummax xs ! i = cummax_from x ys ! k"
      using Cons Suc by (simp add: cummax_def)
    also have "\<dots> = Max (insert x (set (take (Suc k) ys)))"
      using k by (rule cummax_from_nth)
    finally show ?thesis using Cons Suc by simp
  qed
qed

lemma cummax_from_ge: "y \<in> set (cummax_from m xs) \<Longrightarrow> m \<le> y"
proof (induction xs arbitrary: m)
  case Nil
  then show ?case by simp
next
  case (Cons x xs)
  from Cons.prems have "y = max m x \<or> y \<in> set (cummax_from (max m x) xs)" by simp
  then show ?case
  proof
    assume "y = max m x"
    then show ?thesis by simp
  next
    assume "y \<in> set (cummax_from (max m x) xs)"
    then have "max m x \<le> y" by (rule Cons.IH)
    then show ?thesis by simp
  qed
qed

lemma cummax_from_bound: "\<forall>y \<in> set (cummax_from m xs). m \<le> y"
proof
  fix y assume "y \<in> set (cummax_from m xs)"
  then show "m \<le> y" by (rule cummax_from_ge)
qed

lemma cummax_from_sorted: "sorted (cummax_from m xs)"
proof (induction xs arbitrary: m)
  case Nil
  show ?case by simp
next
  case (Cons x xs)
  have s: "sorted (cummax_from (max m x) xs)" by (rule Cons.IH)
  have b: "\<forall>y \<in> set (cummax_from (max m x) xs). max m x \<le> y"
    by (rule cummax_from_bound)
  have "sorted (max m x # cummax_from (max m x) xs)"
    using s b by (simp only: sorted_simps simp_thms)
  then show ?case by (simp only: cummax_from.simps)
qed

lemma cummax_sorted: "sorted (cummax xs)"
proof (cases xs)
  case Nil
  then show ?thesis by (simp add: cummax_def)
next
  case (Cons x ys)
  have "sorted (x # cummax_from x ys)"
    using cummax_from_sorted [of x ys] cummax_from_bound [of x ys]
    by (simp only: sorted_simps simp_thms)
  then show ?thesis using Cons by (simp add: cummax_def)
qed

lemma shift1_first: "0 < length xs \<Longrightarrow> shift1 xs ! 0 = NaN"
  by (cases xs) (simp_all add: shift1_def)

lemma shift1_later: "0 < i \<Longrightarrow> i < length xs \<Longrightarrow> shift1 xs ! i = Fin (xs ! (i - 1))"
  by (cases i) (simp_all add: shift1_def)

lemma length_series: "length (asset_series c (compute_metrics df)) = length (asset_series c df)"
  using series_input(1) [of c df] by (metis length_map)

lemma series_nth:
  "i < length (asset_series c df) \<Longrightarrow>
   col (asset_series c (compute_metrics df) ! i) = map col (asset_series c (compute_metrics df)) ! i"
  by (simp add: length_series)

lemma fill_times_100:
  "(if fl_mul x (Fin 100) = NaN then Fin 0 else fl_mul x (Fin 100))
     = fl_mul (if x = NaN then Fin 0 else x) (Fin 100)"
  by (cases x) simp_all

lemma truncate_compute_metrics: "map row.truncate (compute_metrics df) = df"
  by (rule nth_equalityI) (simp_all add: compute_metrics_def row.truncate_def)

section \<open>Properties of compute\_metrics\<close>

text \<open>
  Claim C9. For every asset, the \<open>rolling_max_price\<close> of the \<open>i\<close>-th row of its series
  is the maximum of the asset's own prices on the rows \<open>0..i\<close>; the values never decrease
  along the series, and so never decrease along ascending dates when the series is sorted
  by date.
\<close>

theorem rolling_max_price_running_maximum:
  assumes "ps = map price (asset_series c df)"
    and "S = asset_series c (compute_metrics df)"
  shows "length S = length ps
    \<and> (\<forall>i. i < length ps \<longrightarrow> rolling_max_price (S ! i) = Max (set (take (Suc i) ps)))
    \<and> (\<forall>i j. i \<le> j \<and> j < length ps \<longrightarrow> rolling_max_price (S ! i) \<le> rolling_max_price (S ! j))
    \<and> (sorted (map date (asset_series c df)) \<longrightarrow>
         (\<forall>i j. i < length S \<and> j < length S \<and> date (S ! i) < date (S ! j)
            \<longrightarrow> rolling_max_price (S ! i) \<le> rolling_max_price (S ! j)))"
proof -
  have len: "length S = length ps"
    using assms by (simp add: length_series)
  have rm: "map rolling_max_price S = cummax ps"
    using assms by (simp add: series_rolling_max_price)
  have at: "rolling_max_price (S ! i) = cummax ps ! i" if "i < length ps" for i
    using that len rm by (metis nth_map)
  have running: "rolling_max_price (S ! i) = Max (set (take (Suc i) ps))" if "i < length ps" for i
    using that at cummax_nth by simp
  have mono: "rolling_max_price (S ! i) \<le> rolling_max_price (S ! j)"
    if "i \<le> j" and "j < length ps" for i j
  proof -
    have "cummax ps ! i \<le> cummax ps ! j"
      using that cummax_sorted [of ps] by (simp add: sorted_iff_nth_mono length_cummax)
    with that show ?thesis by (simp add: at)
  qed
  have by_date: "rolling_max_price (S ! i) \<le> rolling_max_price (S ! j)"
    if srt: "sorted (map date (asset_series c df))"
      and i: "i < length S" and j: "j < length S" and lt: "date (S ! i) < date (S ! j)" for i j
  proof (cases "i \<le> j")
    case True
    with j len show ?thesis by (simp add: mono)
  next
    case False
    then have ji: "j \<le> i" by simp
    have dates: "map date S = map date (asset_series c df)"
      using assms by (simp add: series_input)
    then have "sorted (map date S)" using srt by simp
    then have "map date S ! j \<le> map date S ! i"
      using ji i by (simp add: sorted_iff_nth_mono)
    then have "date (S ! j) \<le> date (S ! i)" using i j by simp
    with lt show ?thesis by simp
  qed
  show ?thesis using len running mono by_date by blast
qed

theorem rolling_max_price_running_maximum_witness:
  "sorted (map date (asset_series ''x'' tbl))
   \<and> (2::nat) < length (map price (asset_series ''x'' tbl))
   \<and> rolling_max_price (asset_series ''x'' (compute_metrics tbl) ! 2) = 20
   \<and> rolling_max_price (asset_series ''x'' (compute_metrics tbl) ! 0)
        \<le> rolling_max_price (asset_series ''x'' (compute_metrics tbl) ! 2)"
proof -
  note t = rolling_max_price_running_maximum [OF refl refl, of "''x''" tbl]
  have ps: "map price (asset_series ''x'' tbl) = [10, 20, 10]"
    by (simp add: asset_series_def tbl_def obs_def)
  have ds: "map date (asset_series ''x'' tbl) = [0, 1, 2]"
    by (simp add: asset_series_def tbl_def obs_def)
  have "rolling_max_price (asset_series ''x'' (compute_metrics tbl) ! 2)
      = Max (set (take (Suc 2) (map price (asset_series ''x'' tbl))))"
    using t [THEN conjunct2, THEN conjunct1, rule_format, of 2] by (simp add: ps)
  then have v: "rolling_max_price (asset_series ''x'' (compute_metrics tbl) ! 2) = 20"
    by (simp add: ps)
  have m: "rolling_max_price (asset_series ''x'' (compute_metrics tbl) ! 0)
      \<le> rolling_max_price (asset_series ''x'' (compute_metrics tbl) ! 2)"
    using t [THEN conjunct2, THEN conjunct2, THEN conjunct1, rule_format, of 0 2]
    by (simp add: ps)
  show ?thesis using v m by (simp add: ps ds)
qed

text \<open>
  Claim C5. For every asset, \<open>daily_return\<close> is the number 0 on the first row of its
  series, and \<open>price[i] / price[i-1] - 1\<close> on a later row, the lag being the asset's own
  previous row (its price not zero); \<open>pct_change\<close> is \<open>daily_return\<close> times 100 on
  every row.
\<close>

theorem daily_return_and_pct_change:
  assumes "ps = map price (asset_series c df)"
    and "S = asset_series c (compute_metrics df)"
  shows "length S = length ps
    \<and> (0 < length ps \<longrightarrow> daily_return (S ! 0) = Fin 0)
    \<and> (\<forall>i. 0 < i \<and> i < length ps \<and> ps ! (i - 1) \<noteq> 0
          \<longrightarrow> daily_return (S ! i) = Fin (ps ! i / ps ! (i - 1) - 1))
    \<and> (\<forall>i. i < length ps \<longrightarrow> pct_change (S ! i) = fl_mul (daily_return (S ! i)) (Fin 100))"
proof -
  let ?h = "\<lambda>p l. fl_sub (fl_div (Fin p) l) (Fin 1)"
  let ?fill = "\<lambda>x. if x = NaN then Fin 0 else x"
  have len: "length S = length ps"
    using assms by (simp add: length_series)
  have dr: "map daily_return S = map ?fill (map2 ?h ps (shift1 ps))"
    using assms by (simp add: series_daily_return fillna_def)
  have pc: "map pct_change S = map ?fill (map (\<lambda>d. fl_mul d (Fin 100)) (map2 ?h ps (shift1 ps)))"
    using assms by (simp add: series_pct_change fillna_def)
  have dr_at: "daily_return (S ! i) = ?fill (?h (ps ! i) (shift1 ps ! i))" if "i < length ps" for i
  proof -
    have "daily_return (S ! i) = map daily_return S ! i" using that len by simp
    also have "\<dots> = ?fill (?h (ps ! i) (shift1 ps ! i))"
      unfolding dr using that by (simp add: length_shift1)
    finally show ?thesis .
  qed
  have pc_at: "pct_change (S ! i) = ?fill (fl_mul (?h (ps ! i) (shift1 ps ! i)) (Fin 100))"
    if "i < length ps" for i
  proof -
    have "pct_change (S ! i) = map pct_change S ! i" using that len by simp
    also have "\<dots> = ?fill (fl_mul (?h (ps ! i) (shift1 ps ! i)) (Fin 100))"
      unfolding pc using that by (simp add: length_shift1)
    finally show ?thesis .
  qed
  have first: "daily_return (S ! 0) = Fin 0" if "0 < length ps"
    using that dr_at [of 0] by (simp add: shift1_first fl_sub_def)
  have later: "daily_return (S ! i) = Fin (ps ! i / ps ! (i - 1) - 1)"
    if "0 < i" "i < length ps" "ps ! (i - 1) \<noteq> 0" for i
    using that dr_at [of i] by (simp add: shift1_later fl_sub_def)
  have pct: "pct_change (S ! i) = fl_mul (daily_return (S ! i)) (Fin 100)" if "i < length ps" for i
    using that by (simp only: pc_at dr_at fill_times_100)
  show ?thesis using len first later pct by blast
qed

theorem daily_return_and_pct_change_witness:
  "(1::nat) < length (map price (asset_series ''x'' tbl))
   \<and> map price (asset_series ''x'' tbl) ! 0 \<noteq> 0
   \<and> daily_return (asset_series ''x'' (compute_metrics tbl) ! 0) = Fin 0
   \<and> daily_return (asset_series ''x'' (compute_metrics tbl) ! 1) = Fin 1
   \<and> pct_change (asset_series ''x'' (compute_metrics tbl) ! 1) = Fin 100"
proof -
  note t = daily_return_and_pct_change [OF refl refl, of "''x''" tbl]
  have ps: "map price (asset_series ''x'' tbl) = [10, 20, 10]"
    by (simp add: asset_series_def tbl_def obs_def)
  have d0: "daily_return (asset_series ''x'' (compute_metrics tbl) ! 0) = Fin 0"
    using t [THEN conjunct2, THEN conjunct1] by (simp add: ps)
  have d1: "daily_return (asset_series ''x'' (compute_metrics tbl) ! 1) = Fin 1"
    using t [THEN conjunct2, THEN conjunct2, THEN conjunct1, rule_format, of 1]
    by (simp add: ps)
  have "pct_change (asset_series ''x'' (compute_metrics tbl) ! 1)
      = fl_mul (daily_return (asset_series ''x'' (compute_metrics tbl) ! 1)) (Fin 100)"
    using t [THEN conjunct2, THEN conjunct2, THEN conjunct2, rule_format, of 1]
    by (simp add: ps)
  with d1 have p1: "pct_change (asset_series ''x'' (compute_metrics tbl) ! 1) = Fin 100"
    by simp
  show ?thesis using d0 d1 p1 by (simp add: ps)
qed

text \<open>
  Claim C10. A call of \<open>compute_metrics\<close> leaves the table it was given, and every other
  object of the store, as it was: it works on a copy and returns a new table. The rows of
  the result are the rows of the input, in the same order and with the same \<open>date\<close>,
  \<open>coin_id\<close>, \<open>vs_currency\<close> and \<open>price\<close>, extended by the derived columns.
\<close>

theorem compute_metrics_keeps_input:
  assumes "a < length s" and "s ! a = Prices df"
  shows "\<exists>c s'. compute_metrics_store s a = Some (c, s')
      \<and> s' ! a = Prices df \<and> take (length s) s' = s \<and> c \<noteq> a
      \<and> s' ! c = Metrics (compute_metrics df)
      \<and> length (compute_metrics df) = length df
      \<and> map row.truncate (compute_metrics df) = df
      \<and> map date (compute_metrics df) = map date df
      \<and> map coin_id (compute_metrics df) = map coin_id df
      \<and> map vs_currency (compute_metrics df) = map vs_currency df
      \<and> map price (compute_metrics df) = map price df"
proof -
  let ?s2 = "(s @ [Prices df])[length s := Working (compute_metrics df) (price_lag_col df)]"
  let ?s3 = "?s2 @ [Metrics (compute_metrics df)]"
  have run: "compute_metrics_store s a = Some (Suc (length s), ?s3)"
    using assms by (simp add: compute_metrics_store_def alloc_def)
  have old: "?s3 ! a = Prices df"
    using assms by (simp add: nth_append)
  have rest: "take (length s) ?s3 = s"
    by simp
  have new: "?s3 ! Suc (length s) = Metrics (compute_metrics df)"
    by (simp add: nth_append)
  have fresh: "Suc (length s) \<noteq> a"
    using assms by simp
  show ?thesis
    using run old rest new fresh
    by (simp add: length_compute_metrics truncate_compute_metrics input_columns)
qed

theorem compute_metrics_keeps_input_witness:
  "(0::nat) < length [Prices [obs ''x'' 0 10, obs ''x'' 1 20]]
   \<and> [Prices [obs ''x'' 0 10, obs ''x'' 1 20]] ! 0 = Prices [obs ''x'' 0 10, obs ''x'' 1 20]
   \<and> (\<exists>c s'. compute_metrics_store [Prices [obs ''x'' 0 10, obs ''x'' 1 20]] 0 = Some (c, s')
        \<and> s' ! 0 = Prices [obs ''x'' 0 10, obs ''x'' 1 20] \<and> c \<noteq> 0
        \<and> map price (compute_metrics [obs ''x'' 0 10, obs ''x'' 1 20]) = [10, 20])"
proof -
  have a: "(0::nat) < length [Prices [obs ''x'' 0 10, obs ''x'' 1 20]]" by simp
  have b: "[Prices [obs ''x'' 0 10, obs ''x'' 1 20]] ! 0 = Prices [obs ''x'' 0 10, obs ''x'' 1 20]"
    by simp
  have p: "map price [obs ''x'' 0 10, obs ''x'' 1 20] = [10, 20]" by (simp add: obs_def)
  from compute_metrics_keeps_input [OF a b] p show ?thesis by auto
qed

text \<open>
  Claim C3 says that \<open>cum_return\<close> is the product of \<open>1 + daily_return[k]\<close> for
  \<open>k = 0..i\<close> minus 1, hence 0 on the first row of an asset. On the prices 10, 20, 10 of
  one asset the code gives NaN on the first row: line 140 runs before line 148 fills the
  first daily return, \<open>cumprod\<close> leaves a NaN cell NaN, and \<open>cum_return\<close> is not
  filled.
\<close>

theorem cum_return_first_row:
  "map cum_return (compute_metrics [obs ''x'' 0 10, obs ''x'' 1 20, obs ''x'' 2 10])
     = [NaN, Fin 1, Fin 0]"
  by code_simp

text \<open>
  Claim C1 says that \<open>drawdown\<close> is \<open>(price - rolling_max_price) / rolling_max_price\<close>
  with the running maximum of the asset's own prices, hence 0 where the price is that
  maximum. On a table of two assets the second asset's first row has price 10, running
  maximum 10, and drawdown -9/10: line 146 takes the running maximum over the whole
  price column, the first asset's price 100 included.
\<close>

theorem drawdown_other_asset:
  "map drawdown (compute_metrics [obs ''bitcoin'' 0 100, obs ''ethereum'' 0 10])
     = [Fin 0, Fin (- (9 / 10))]
   \<and> map rolling_max_price (compute_metrics [obs ''bitcoin'' 0 100, obs ''ethereum'' 0 10])
     = [100, 10]"
  by code_simp

section \<open>Properties of safe\_request\<close>

lemma wait_time_bounds:
  assumes "0 \<le> backoff" and "1 / 2 \<le> j" and "j \<le> 3 / 2"
  shows "max 1 (backoff ^ i * (1 / 2)) \<le> wait_time backoff i j"
    and "wait_time backoff i j \<le> max 1 (backoff ^ i * (3 / 2))"
proof -
  have b: "0 \<le> backoff ^ i" using assms(1) by simp
  have lo: "backoff ^ i * (1 / 2) \<le> backoff ^ i * j"
    using b assms(2) by (rule mult_left_mono [rotated])
  have hi: "backoff ^ i * j \<le> backoff ^ i * (3 / 2)"
    using b assms(3) by (rule mult_left_mono [rotated])
  show "max 1 (backoff ^ i * (1 / 2)) \<le> wait_time backoff i j"
    unfolding wait_time_def using lo by (rule max.mono [OF order_refl])
  show "wait_time backoff i j \<le> max 1 (backoff ^ i * (3 / 2))"
    unfolding wait_time_def using hi by (rule max.mono [OF order_refl])
qed

lemma loop_transient_status:
  assumes "get i = Inr r" and "status_code r \<in> {429, 500, 502, 503, 504}"
  shows "safe_request_loop backoff get jitter i (Suc n) =
     (fst (safe_request_loop backoff get jitter (Suc i) n),
      Request # Sleep (wait_time backoff i (jitter i))
        # snd (safe_request_loop backoff get jitter (Suc i) n))"
  using assms by (auto simp: Let_def)

lemma loop_request_exception:
  assumes "get i = Inl e" and "is_RequestException e"
  shows "safe_request_loop backoff get jitter i (Suc n) =
     (fst (safe_request_loop backoff get jitter (Suc i) n),
      Request # Sleep (wait_time backoff i (jitter i))
        # snd (safe_request_loop backoff get jitter (Suc i) n))"
  using assms by (simp add: Let_def)

lemma loop_success:
  assumes "get i = Inr r" and "status_code r = 200"
  shows "safe_request_loop backoff get jitter i (Suc n) = (Inr (json r), [Request])"
  using assms by (simp add: Let_def)

text \<open>
  Claim C6. At attempt \<open>i\<close>, a response with status 429, 500, 502, 503 or 504, or a
  \<open>RequestException\<close> of the request, makes \<open>safe_request\<close> sleep for
  \<open>max(1.0, backoff ** i * jitter)\<close> and go on with attempt \<open>i + 1\<close> (which raises
  \<open>RuntimeError\<close> when no attempt is left); with the jitter in \<open>[0.5, 1.5]\<close> the wait
  is at least 1 and lies between \<open>max(1, backoff ** i / 2)\<close> and
  \<open>max(1, 1.5 * backoff ** i)\<close>. On the responses 503, 503, 200 the function returns the
  body of the third response after exactly two sleeps, each of at least 1. (That the
  jitter is drawn uniformly is a fact about the random source, which the model takes as
  an input.)
\<close>

theorem safe_request_transient_backoff:
  assumes "0 \<le> backoff" and "\<forall>k. 1 / 2 \<le> jitter k \<and> jitter k \<le> 3 / 2"
  shows "(\<forall>i n. (\<exists>r. get i = Inr r \<and> status_code r \<in> {429, 500, 502, 503, 504})
              \<or> (\<exists>e. get i = Inl e \<and> is_RequestException e) \<longrightarrow>
            safe_request_loop backoff get jitter i (Suc n) =
              (fst (safe_request_loop backoff get jitter (Suc i) n),
               Request # Sleep (max 1 (backoff ^ i * jitter i))
                 # snd (safe_request_loop backoff get jitter (Suc i) n))
            \<and> 1 \<le> max 1 (backoff ^ i * jitter i)
            \<and> max 1 (backoff ^ i * (1 / 2)) \<le> max 1 (backoff ^ i * jitter i)
            \<and> max 1 (backoff ^ i * jitter i) \<le> max 1 (backoff ^ i * (3 / 2)))
    \<and> (\<forall>r0 r1 r2 max_retries.
          get 0 = Inr r0 \<and> status_code r0 = 503 \<and> get 1 = Inr r1 \<and> status_code r1 = 503
          \<and> get 2 = Inr r2 \<and> status_code r2 = 200 \<and> 3 \<le> max_retries \<longrightarrow>
            safe_request max_retries backoff get jitter =
              (Inr (json r2),
               [Request, Sleep (max 1 (backoff ^ 0 * jitter 0)),
                Request, Sleep (max 1 (backoff ^ 1 * jitter 1)), Request])
            \<and> 1 \<le> max 1 (backoff ^ 0 * jitter 0) \<and> 1 \<le> max 1 (backoff ^ 1 * jitter 1))"
proof (intro conjI allI impI)
  fix i n
  assume t: "(\<exists>r. get i = Inr r \<and> status_code r \<in> {429, 500, 502, 503, 504})
              \<or> (\<exists>e. get i = Inl e \<and> is_RequestException e)"
  then show "safe_request_loop backoff get jitter i (Suc n) =
      (fst (safe_request_loop backoff get jitter (Suc i) n),
       Request # Sleep (max 1 (backoff ^ i * jitter i))
         # snd (safe_request_loop backoff get jitter (Suc i) n))"
    using loop_transient_status [of get i _ backoff jitter n]
      loop_request_exception [of get i _ backoff jitter n]
    unfolding wait_time_def by blast
  show "1 \<le> max 1 (backoff ^ i * jitter i)" by simp
  show "max 1 (backoff ^ i * (1 / 2)) \<le> max 1 (backoff ^ i * jitter i)"
    using wait_time_bounds(1) [of backoff "jitter i" i] assms by (simp add: wait_time_def)
  show "max 1 (backoff ^ i * jitter i) \<le> max 1 (backoff ^ i * (3 / 2))"
    using wait_time_bounds(2) [of backoff "jitter i" i] assms by (simp add: wait_time_def)
next
  fix r0 r1 r2 :: "'a response" and max_retries :: int
  assume h: "get 0 = Inr r0 \<and> status_code r0 = 503 \<and> get 1 = Inr r1 \<and> status_code r1 = 503
          \<and> get 2 = Inr r2 \<and> status_code r2 = 200 \<and> 3 \<le> max_retries"
  then have "3 \<le> max_retries" by blast
  then have "3 \<le> nat max_retries" by linarith
  then obtain k where "nat max_retries = 3 + k" by (auto simp: le_iff_add)
  then have "nat max_retries = Suc (Suc (Suc k))" by simp
  then obtain n where n: "nat max_retries = Suc (Suc (Suc n))" ..
  have g0: "get 0 = Inr r0" "status_code r0 \<in> {429, 500, 502, 503, 504}" using h by simp_all
  have g1: "get (Suc 0) = Inr r1" "status_code r1 \<in> {429, 500, 502, 503, 504}"
    using h by simp_all
  have g2: "get (Suc (Suc 0)) = Inr r2" "status_code r2 = 200"
    using h by (simp_all add: numeral_2_eq_2)
  have l2: "safe_request_loop backoff get jitter (Suc (Suc 0)) (Suc n) = (Inr (json r2), [Request])"
    using g2 by (rule loop_success)
  have l1: "safe_request_loop backoff get jitter (Suc 0) (Suc (Suc n)) =
      (Inr (json r2), [Request, Sleep (wait_time backoff (Suc 0) (jitter (Suc 0))), Request])"
    by (simp only: loop_transient_status [where get = get and i = "Suc 0" and r = r1, OF g1]
        l2 fst_conv snd_conv)
  have l0: "safe_request_loop backoff get jitter 0 (Suc (Suc (Suc n))) =
      (Inr (json r2), [Request, Sleep (wait_time backoff 0 (jitter 0)),
         Request, Sleep (wait_time backoff (Suc 0) (jitter (Suc 0))), Request])"
    by (simp only: loop_transient_status [where get = get and i = 0 and r = r0, OF g0]
        l1 fst_conv snd_conv)
  show "safe_request max_retries backoff get jitter =
              (Inr (json r2),
               [Request, Sleep (max 1 (backoff ^ 0 * jitter 0)),
                Request, Sleep (max 1 (backoff ^ 1 * jitter 1)), Request])"
    by (simp only: safe_request_def n l0 wait_time_def One_nat_def)
  show "1 \<le> max 1 (backoff ^ 0 * jitter 0)" by simp
  show "1 \<le> max 1 (backoff ^ 1 * jitter 1)" by simp
qed

theorem safe_request_transient_backoff_witness:
  "(0::rat) \<le> 2 \<and> (1::rat) / 2 \<le> 1 \<and> (1::rat) \<le> 3 / 2
   \<and> safe_request 8 2
        (\<lambda>k. if k < 2 then Inr \<lparr> status_code = 503, json = ''busy'' \<rparr>
              else Inr \<lparr> status_code = 200, json = ''payload'' \<rparr>)
        (\<lambda>k. 1)
      = (Inr ''payload'', [Request, Sleep 1, Request, Sleep 2, Request])"
proof -
  let ?get = "\<lambda>k::nat. if k < 2 then Inr \<lparr> status_code = 503, json = ''busy'' \<rparr>
              else (Inr \<lparr> status_code = 200, json = ''payload'' \<rparr> :: error + string response)"
  have b: "(0::rat) \<le> 2" by simp
  have j: "\<forall>k::nat. 1 / 2 \<le> (\<lambda>k. 1::rat) k \<and> (\<lambda>k. 1::rat) k \<le> 3 / 2" by simp
  note t = safe_request_transient_backoff [OF b j, of ?get, THEN conjunct2, rule_format,
      of "\<lparr> status_code = 503, json = ''busy'' \<rparr>" "\<lparr> status_code = 503, json = ''busy'' \<rparr>"
         "\<lparr> status_code = 200, json = ''payload'' \<rparr>" 8]
  have "safe_request 8 2 ?get (\<lambda>k. 1)
      = (Inr ''payload'', [Request, Sleep (max 1 (2 ^ 0 * 1)), Request, Sleep (max 1 (2 ^ 1 * 1)), Request])"
    using t by simp
  then show ?thesis by simp
qed

text \<open>
  Claim C2 says that any other status than 200 and the five retried ones makes
  \<open>safe_request\<close> raise at once, with no retry and no sleep. On the responses 404, 200
  the code sleeps and returns the second body: \<open>raise_for_status\<close> is called inside the
  \<open>try\<close>, and its \<open>HTTPError\<close> is a \<open>RequestException\<close>, which the handler of line 41
  catches. On the responses 204, 200 nothing is raised and the loop goes on without a
  sleep.
\<close>

theorem safe_request_fatal_status:
  "safe_request 8 2
     (\<lambda>k. if k = 0 then Inr \<lparr> status_code = 404, json = ''not found'' \<rparr>
           else Inr \<lparr> status_code = 200, json = ''payload'' \<rparr>)
     (\<lambda>k. 1)
     = (Inr ''payload'', [Request, Sleep 1, Request])
   \<and> safe_request 8 2
     (\<lambda>k. if k = 0 then Inr \<lparr> status_code = 204, json = '''' \<rparr>
           else Inr \<lparr> status_code = 200, json = ''payload'' \<rparr>)
     (\<lambda>k. 1)
     = (Inr ''payload'', [Request, Request])"
  by code_simp

section \<open>Properties of drop\_duplicates\<close>

lemma find_drop_seen:
  "find (\<lambda>x. key x = k) (drop_seen key seen xs) =
     (if k \<in> set seen then None else find (\<lambda>x. key x = k) xs)"
proof (induction xs arbitrary: seen)
  case Nil
  then show ?case by simp
next
  case (Cons x xs)
  show ?case
  proof (cases "key x \<in> set seen")
    case True
    then show ?thesis using Cons.IH [of seen] by auto
  next
    case False
    then show ?thesis using Cons.IH [of "key x # seen"] by auto
  qed
qed

lemma find_drop_duplicates_first:
  "find (\<lambda>x. key x = k) (drop_duplicates_first key xs) = find (\<lambda>x. key x = k) xs"
  by (simp add: drop_duplicates_first_def find_drop_seen)

lemma set_drop_seen: "set (drop_seen key seen xs) \<subseteq> set xs"
proof (induction xs arbitrary: seen)
  case Nil
  then show ?case by simp
next
  case (Cons x xs)
  show ?case using Cons.IH [of seen] Cons.IH [of "key x # seen"] by auto
qed

lemma keys_drop_seen: "key ` set (drop_seen key seen xs) = key ` set xs - set seen"
proof (induction xs arbitrary: seen)
  case Nil
  then show ?case by simp
next
  case (Cons x xs)
  show ?case
  proof (cases "key x \<in> set seen")
    case True
    then show ?thesis using Cons.IH [of seen] by auto
  next
    case False
    then show ?thesis using Cons.IH [of "key x # seen"] by auto
  qed
qed

lemma distinct_drop_seen: "distinct (map key (drop_seen key seen xs))"
proof (induction xs arbitrary: seen)
  case Nil
  then show ?case by simp
next
  case (Cons x xs)
  show ?case
  proof (cases "key x \<in> set seen")
    case True
    then show ?thesis using Cons.IH [of seen] by simp
  next
    case False
    have "key x \<notin> key ` set (drop_seen key (key x # seen) xs)"
      by (simp add: keys_drop_seen)
    then show ?thesis using False Cons.IH [of "key x # seen"] by simp
  qed
qed

lemma drop_seen_first:
  "x \<in> set (drop_seen key seen xs) \<Longrightarrow> find (\<lambda>y. key y = key x) xs = Some x"
proof (induction xs arbitrary: seen)
  case Nil
  then show ?case by simp
next
  case (Cons a xs)
  show ?case
  proof (cases "key a \<in> set seen")
    case True
    with Cons.prems have x: "x \<in> set (drop_seen key seen xs)" by simp
    then have "key x \<in> key ` set (drop_seen key seen xs)" by blast
    then have "key x \<notin> set seen" by (simp add: keys_drop_seen)
    with True have "key a \<noteq> key x" by metis
    then show ?thesis using Cons.IH [OF x] by simp
  next
    case False
    with Cons.prems have "x = a \<or> x \<in> set (drop_seen key (key a # seen) xs)" by simp
    then show ?thesis
    proof
      assume "x = a"
      then show ?thesis by simp
    next
      assume x: "x \<in> set (drop_seen key (key a # seen) xs)"
      then have "key x \<in> key ` set (drop_seen key (key a # seen) xs)" by blast
      then have "key a \<noteq> key x" by (auto simp: keys_drop_seen)
      then show ?thesis using Cons.IH [OF x] by simp
    qed
  qed
qed

lemma sorted_drop_seen:
  "sorted (map key xs) \<Longrightarrow> sorted (map key (drop_seen key seen xs))"
proof (induction xs arbitrary: seen)
  case Nil
  then show ?case by simp
next
  case (Cons a xs)
  from Cons.prems have s: "sorted (map key xs)" and b: "\<forall>y \<in> set xs. key a \<le> key y"
    by simp_all
  show ?case
  proof (cases "key a \<in> set seen")
    case True
    then show ?thesis using Cons.IH [OF s, of seen] by simp
  next
    case False
    have "\<forall>y \<in> set (drop_seen key (key a # seen) xs). key a \<le> key y"
      using b set_drop_seen [of key "key a # seen" xs] by blast
    then show ?thesis using False Cons.IH [OF s, of "key a # seen"] by simp
  qed
qed

section \<open>Properties of fetch\_coin\_metadata\<close>

lemma find_append_cases:
  "find P (xs @ ys) = (case find P xs of Some x \<Rightarrow> Some x | None \<Rightarrow> find P ys)"
  by (induction xs) simp_all

lemma find_fallback:
  "cid \<in> set coin_ids \<Longrightarrow>
   find (\<lambda>m. meta_coin_id m = Some cid) (fallback_meta_from_ids coin_ids) =
     Some \<lparr> meta_coin_id = Some cid, symbol = Some (upper (take 4 cid)),
            name = Some (title (replace_hyphens cid)), market_cap_rank = None \<rparr>"
  by (induction coin_ids) (auto simp: fallback_meta_from_ids_def)

lemma fetch_coin_metadata_returns:
  "\<exists>rows tr. fetch_coin_metadata csv get jitter coin_ids = (Inr rows, tr)"
  by (simp add: fetch_coin_metadata_def split: option.split prod.split sum.split)

lemma fetch_meta_api_raises:
  "fst (safe_request 8 2 get jitter) = Inl e \<Longrightarrow>
   fetch_meta_api csv get jitter = (Inl e, Sleep 6 # snd (safe_request 8 2 get jitter))"
  by (cases "safe_request 8 2 get jitter") (simp add: fetch_meta_api_def)

lemma fetch_coin_metadata_on_failure:
  assumes "cached csv coin_ids = None" and "fst (safe_request 8 2 get jitter) = Inl e"
  shows "fetch_coin_metadata csv get jitter coin_ids =
     (Inr (merge_snapshot drop_duplicates_first csv (fallback_meta_from_ids coin_ids)),
      Sleep 6 # snd (safe_request 8 2 get jitter))"
  using assms by (simp add: fetch_coin_metadata_def fetch_meta_api_raises)

text \<open>
  Claim C7. \<open>fetch_coin_metadata\<close> always returns a table, whatever the snapshot file,
  the responses and the requested ids are. When the snapshot does not cover the request
  and the fetch raises, the result is the fallback rows, one per requested id with the
  symbol \<open>cid[:4].upper()\<close>, the name \<open>cid.replace("-", " ").title()\<close> and no rank,
  merged with the snapshot when it can be read: for every id the result holds one row,
  the snapshot's first row of that id if there is one, the fallback row otherwise.
\<close>

theorem fetch_coin_metadata_fallback:
  "(\<exists>rows tr. fetch_coin_metadata csv get jitter coin_ids = (Inr rows, tr))
   \<and> (cached csv coin_ids = None \<and> (\<exists>e. fst (safe_request 8 2 get jitter) = Inl e) \<longrightarrow>
        (\<exists>rows tr. fetch_coin_metadata csv get jitter coin_ids = (Inr rows, tr)
          \<and> (csv = NoFile \<or> csv = Unreadable \<longrightarrow> rows = fallback_meta_from_ids coin_ids)
          \<and> (\<forall>old. csv = Snapshot old \<longrightarrow>
                set rows \<subseteq> set old \<union> set (fallback_meta_from_ids coin_ids)
                \<and> distinct (map meta_coin_id rows)
                \<and> (\<forall>k. find (\<lambda>m. meta_coin_id m = k) rows =
                      (case find (\<lambda>m. meta_coin_id m = k) old of
                         Some m \<Rightarrow> Some m
                       | None \<Rightarrow> find (\<lambda>m. meta_coin_id m = k) (fallback_meta_from_ids coin_ids))))))
   \<and> (\<forall>cid. cid \<in> set coin_ids \<longrightarrow>
        find (\<lambda>m. meta_coin_id m = Some cid) (fallback_meta_from_ids coin_ids) =
          Some \<lparr> meta_coin_id = Some cid, symbol = Some (upper (take 4 cid)),
                 name = Some (title (replace_hyphens cid)), market_cap_rank = None \<rparr>)"
proof (intro conjI impI allI)
  show "\<exists>rows tr. fetch_coin_metadata csv get jitter coin_ids = (Inr rows, tr)"
    by (rule fetch_coin_metadata_returns)
next
  assume h: "cached csv coin_ids = None \<and> (\<exists>e. fst (safe_request 8 2 get jitter) = Inl e)"
  then obtain e where e: "fst (safe_request 8 2 get jitter) = Inl e" by blast
  let ?fb = "fallback_meta_from_ids coin_ids"
  let ?rows = "merge_snapshot drop_duplicates_first csv ?fb"
  have run: "fetch_coin_metadata csv get jitter coin_ids =
      (Inr ?rows, Sleep 6 # snd (safe_request 8 2 get jitter))"
    using h e by (simp add: fetch_coin_metadata_on_failure)
  have nofile: "csv = NoFile \<or> csv = Unreadable \<longrightarrow> ?rows = ?fb"
    by (auto simp: merge_snapshot_def)
  have snap: "set ?rows \<subseteq> set old \<union> set ?fb
      \<and> distinct (map meta_coin_id ?rows)
      \<and> (\<forall>k. find (\<lambda>m. meta_coin_id m = k) ?rows =
            (case find (\<lambda>m. meta_coin_id m = k) old of
               Some m \<Rightarrow> Some m
             | None \<Rightarrow> find (\<lambda>m. meta_coin_id m = k) ?fb))" if "csv = Snapshot old" for old
  proof -
    have r: "?rows = drop_seen meta_coin_id [] (old @ ?fb)"
      using that by (simp add: merge_snapshot_def drop_duplicates_first_def)
    have "set ?rows \<subseteq> set old \<union> set ?fb"
      unfolding r using set_drop_seen [of meta_coin_id "[]" "old @ ?fb"] by simp
    moreover have "distinct (map meta_coin_id ?rows)"
      unfolding r by (rule distinct_drop_seen)
    moreover have "find (\<lambda>m. meta_coin_id m = k) ?rows =
            (case find (\<lambda>m. meta_coin_id m = k) old of
               Some m \<Rightarrow> Some m
             | None \<Rightarrow> find (\<lambda>m. meta_coin_id m = k) ?fb)" for k
      unfolding r by (simp add: find_drop_seen find_append_cases)
    ultimately show ?thesis by blast
  qed
  show "\<exists>rows tr. fetch_coin_metadata csv get jitter coin_ids = (Inr rows, tr)
          \<and> (csv = NoFile \<or> csv = Unreadable \<longrightarrow> rows = fallback_meta_from_ids coin_ids)
          \<and> (\<forall>old. csv = Snapshot old \<longrightarrow>
                set rows \<subseteq> set old \<union> set (fallback_meta_from_ids coin_ids)
                \<and> distinct (map meta_coin_id rows)
                \<and> (\<forall>k. find (\<lambda>m. meta_coin_id m = k) rows =
                      (case find (\<lambda>m. meta_coin_id m = k) old of
                         Some m \<Rightarrow> Some m
                       | None \<Rightarrow> find (\<lambda>m. meta_coin_id m = k) (fallback_meta_from_ids coin_ids))))"
    using run nofile snap by blast
next
  fix cid assume "cid \<in> set coin_ids"
  then show "find (\<lambda>m. meta_coin_id m = Some cid) (fallback_meta_from_ids coin_ids) =
          Some \<lparr> meta_coin_id = Some cid, symbol = Some (upper (take 4 cid)),
                 name = Some (title (replace_hyphens cid)), market_cap_rank = None \<rparr>"
    by (rule find_fallback)
qed

theorem fetch_coin_metadata_fallback_witness:
  "cached (Snapshot [btc_row]) [''bitcoin'', ''usd-coin''] = None
   \<and> fst (safe_request 8 2 (\<lambda>k. Inl ConnectionError :: error + markets_json response) (\<lambda>k. 1))
        = Inl RuntimeError
   \<and> (\<exists>rows tr. fetch_coin_metadata (Snapshot [btc_row]) (\<lambda>k. Inl ConnectionError) (\<lambda>k. 1)
          [''bitcoin'', ''usd-coin''] = (Inr rows, tr)
        \<and> find (\<lambda>m. meta_coin_id m = Some ''bitcoin'') rows = Some btc_row
        \<and> find (\<lambda>m. meta_coin_id m = Some ''usd-coin'') rows =
            Some \<lparr> meta_coin_id = Some ''usd-coin'', symbol = Some ''USD-'',
                   name = Some ''Usd Coin'', market_cap_rank = None \<rparr>)"
proof -
  let ?get = "\<lambda>k::nat. Inl ConnectionError :: error + markets_json response"
  let ?ids = "[''bitcoin'', ''usd-coin'']"
  have c: "cached (Snapshot [btc_row]) ?ids = None"
    by code_simp
  have e: "fst (safe_request 8 2 ?get (\<lambda>k. 1)) = Inl RuntimeError"
    by code_simp
  have fb: "fallback_meta_from_ids ?ids =
      [\<lparr> meta_coin_id = Some ''bitcoin'', symbol = Some ''BITC'',
          name = Some ''Bitcoin'', market_cap_rank = None \<rparr>,
       \<lparr> meta_coin_id = Some ''usd-coin'', symbol = Some ''USD-'',
          name = Some ''Usd Coin'', market_cap_rank = None \<rparr>]"
    by code_simp
  from c e have h: "cached (Snapshot [btc_row]) ?ids = None
      \<and> (\<exists>e. fst (safe_request 8 2 ?get (\<lambda>k. 1)) = Inl e)" by blast
  note t = fetch_coin_metadata_fallback [of "Snapshot [btc_row]" ?get "\<lambda>k. 1" ?ids,
      THEN conjunct2, THEN conjunct1, rule_format, OF h]
  then obtain rows tr where
    run: "fetch_coin_metadata (Snapshot [btc_row]) ?get (\<lambda>k. 1) ?ids = (Inr rows, tr)"
    and f: "\<And>k. find (\<lambda>m. meta_coin_id m = k) rows =
              (case find (\<lambda>m. meta_coin_id m = k) [btc_row] of
                 Some m \<Rightarrow> Some m
               | None \<Rightarrow> find (\<lambda>m. meta_coin_id m = k) (fallback_meta_from_ids ?ids))"
    by blast
  have f1: "find (\<lambda>m. meta_coin_id m = Some ''bitcoin'') rows = Some btc_row"
    unfolding f by (simp add: btc_row_def)
  have f2: "find (\<lambda>m. meta_coin_id m = Some ''usd-coin'') rows =
            Some \<lparr> meta_coin_id = Some ''usd-coin'', symbol = Some ''USD-'',
                   name = Some ''Usd Coin'', market_cap_rank = None \<rparr>"
    unfolding f fb by (simp add: btc_row_def)
  show ?thesis using c e run f1 f2 by blast
qed

text \<open>
  Claim C8. When the snapshot file is readable and holds every requested id,
  \<open>fetch_coin_metadata\<close> returns the snapshot as read, with no request and no sleep.
\<close>

theorem fetch_coin_metadata_cache_hit:
  assumes "csv = Snapshot meta_old"
    and "set coin_ids \<subseteq> set (map (\<lambda>m. str_cell (meta_coin_id m)) meta_old)"
  shows "fetch_coin_metadata csv get jitter coin_ids = (Inr meta_old, [])"
proof -
  have "filter (\<lambda>c. c \<notin> set (map (\<lambda>m. str_cell (meta_coin_id m)) meta_old)) coin_ids = []"
    using assms(2) by (auto simp: filter_empty_conv)
  then have "cached csv coin_ids = Some meta_old"
    using assms(1) by (simp add: cached_def)
  then show ?thesis by (simp add: fetch_coin_metadata_def)
qed

theorem fetch_coin_metadata_cache_hit_witness:
  "set [''bitcoin''] \<subseteq> set (map (\<lambda>m. str_cell (meta_coin_id m)) [btc_row])
   \<and> fetch_coin_metadata (Snapshot [btc_row]) (\<lambda>k. Inl ConnectionError) (\<lambda>k. 1) [''bitcoin'']
       = (Inr [btc_row], [])"
proof -
  have h: "set [''bitcoin''] \<subseteq> set (map (\<lambda>m. str_cell (meta_coin_id m)) [btc_row])"
    by (simp add: btc_row_def str_cell_def)
  show ?thesis
    using h fetch_coin_metadata_cache_hit [OF refl h, of "\<lambda>k. Inl ConnectionError" "\<lambda>k. 1"]
    by simp
qed

section \<open>Properties of fetch\_market\_chart\<close>

lemma chart_key_chart_row: "chart_key (chart_row cid cur tp) = (cid, date_of_ms (fst tp))"
  by (simp add: chart_key_def chart_row_def)

lemma find_filter: "find P xs = (case filter P xs of [] \<Rightarrow> None | y # ys \<Rightarrow> Some y)"
  by (induction xs) simp_all

lemma find_sort_key: "find (\<lambda>y. f y = k) (sort_key f xs) = find (\<lambda>y. f y = k) xs"
  by (simp add: find_filter sort_key_stable)

lemma find_chart_row:
  "find (\<lambda>q. chart_key q = (cid, d)) (map (chart_row cid cur) prices) = Some r \<Longrightarrow>
   map_of (map (\<lambda>tp. (date_of_ms (fst tp), snd tp)) prices) d = Some (price r)"
proof (induction prices)
  case Nil
  then show ?case by simp
next
  case (Cons tp prices)
  show ?case
  proof (cases "date_of_ms (fst tp) = d")
    case True
    with Cons.prems have "r = chart_row cid cur tp" by (simp add: chart_key_chart_row)
    then show ?thesis using True by (simp add: chart_row_def)
  next
    case False
    with Cons.prems have "find (\<lambda>q. chart_key q = (cid, d)) (map (chart_row cid cur) prices) = Some r"
      by (simp add: chart_key_chart_row)
    then show ?thesis using False Cons.IH by simp
  qed
qed

lemma market_chart_rows_nonempty:
  "prices \<noteq> [] \<Longrightarrow> market_chart_rows cid cur prices =
     drop_seen chart_key [] (sort_key chart_key (map (chart_row cid cur) prices))"
  by (simp add: market_chart_rows_def drop_duplicates_first_def)

lemma market_chart_rows_subset:
  "set (market_chart_rows cid cur prices) \<subseteq> chart_row cid cur ` set prices"
proof (cases "prices = []")
  case True
  then show ?thesis by (simp add: market_chart_rows_def)
next
  case False
  then show ?thesis
    using set_drop_seen [of chart_key "[]" "sort_key chart_key (map (chart_row cid cur) prices)"]
    by (simp add: market_chart_rows_nonempty)
qed

lemma market_chart_rows_key:
  "r \<in> set (market_chart_rows cid cur prices) \<Longrightarrow>
     coin_id r = cid \<and> vs_currency r = cur \<and> chart_key r = (cid, date r)"
  using market_chart_rows_subset [of cid cur prices]
  by (auto simp: chart_row_def chart_key_def)

lemma market_chart_keys:
  "chart_key ` set (market_chart_rows cid cur prices) =
     (\<lambda>tp. (cid, date_of_ms (fst tp))) ` set prices"
proof (cases "prices = []")
  case True
  then show ?thesis by (simp add: market_chart_rows_def)
next
  case False
  have "chart_key ` set (market_chart_rows cid cur prices) =
      chart_key ` set (map (chart_row cid cur) prices)"
    using False by (simp add: market_chart_rows_nonempty keys_drop_seen)
  also have "\<dots> = (\<lambda>tp. (cid, date_of_ms (fst tp))) ` set prices"
    by (simp add: image_image chart_key_chart_row)
  finally show ?thesis .
qed

lemma market_chart_dates:
  "set (map date (market_chart_rows cid cur prices)) =
     set (map (\<lambda>tp. date_of_ms (fst tp)) prices)"
proof -
  have "date ` set (market_chart_rows cid cur prices) =
      snd ` chart_key ` set (market_chart_rows cid cur prices)"
    by (simp add: image_image chart_key_def)
  also have "\<dots> = (\<lambda>tp. date_of_ms (fst tp)) ` set prices"
    by (simp add: market_chart_keys image_image)
  finally show ?thesis by simp
qed

lemma market_chart_sorted_keys:
  "sorted (map chart_key (market_chart_rows cid cur prices))"
proof (cases "prices = []")
  case True
  then show ?thesis by (simp add: market_chart_rows_def)
next
  case False
  then show ?thesis
    by (simp add: market_chart_rows_nonempty sorted_drop_seen)
qed

lemma market_chart_sorted_dates:
  "sorted (map date (market_chart_rows cid cur prices))"
proof -
  let ?out = "market_chart_rows cid cur prices"
  have "sorted_wrt (\<lambda>x y. chart_key x \<le> chart_key y) ?out"
    using market_chart_sorted_keys [of cid cur prices] by (simp add: sorted_map)
  then have "sorted_wrt (\<lambda>x y. date x \<le> date y) ?out"
  proof (rule sorted_wrt_mono_rel [rotated])
    fix x y assume "x \<in> set ?out" and "y \<in> set ?out" and "chart_key x \<le> chart_key y"
    then have "(cid, date x) \<le> (cid, date y)"
      using market_chart_rows_key [of x cid cur prices] market_chart_rows_key [of y cid cur prices]
      by simp
    then show "date x \<le> date y" by (simp add: less_eq_prod_def)
  qed
  then show ?thesis by (simp add: sorted_map)
qed

lemma market_chart_first:
  assumes "r \<in> set (market_chart_rows cid cur prices)"
  shows "find (\<lambda>q. chart_key q = chart_key r)
           (sort_key chart_key (map (chart_row cid cur) prices)) = Some r"
proof (cases "prices = []")
  case True
  with assms show ?thesis by (simp add: market_chart_rows_def)
next
  case False
  with assms have "r \<in> set (drop_seen chart_key []
      (sort_key chart_key (map (chart_row cid cur) prices)))"
    by (simp add: market_chart_rows_nonempty)
  then show ?thesis by (rule drop_seen_first)
qed

text \<open>
  Claim C4, amended. The rows built from the price points of a response hold each
  (\<open>coin_id\<close>, \<open>date\<close>) once and every date of the response, in ascending order of
  date, and the row kept for a date is the first one of that date after the stable sort,
  which is the first price point of that day in the response: \<open>drop_duplicates\<close> is
  called with its default \<open>keep="first"\<close>.
\<close>

theorem market_chart_keeps_first_per_date:
  "distinct (map chart_key (market_chart_rows cid cur prices))
   \<and> set (map date (market_chart_rows cid cur prices))
       = set (map (\<lambda>tp. date_of_ms (fst tp)) prices)
   \<and> sorted (map date (market_chart_rows cid cur prices))
   \<and> (\<forall>r \<in> set (market_chart_rows cid cur prices).
         coin_id r = cid \<and> vs_currency r = cur
         \<and> find (\<lambda>q. chart_key q = chart_key r)
             (sort_key chart_key (map (chart_row cid cur) prices)) = Some r
         \<and> map_of (map (\<lambda>tp. (date_of_ms (fst tp), snd tp)) prices) (date r) = Some (price r))"
proof (intro conjI ballI)
  show "distinct (map chart_key (market_chart_rows cid cur prices))"
  proof (cases "prices = []")
    case True
    then show ?thesis by (simp add: market_chart_rows_def)
  next
    case False
    then show ?thesis by (simp add: market_chart_rows_nonempty distinct_drop_seen)
  qed
  show "set (map date (market_chart_rows cid cur prices))
       = set (map (\<lambda>tp. date_of_ms (fst tp)) prices)"
    by (rule market_chart_dates)
  show "sorted (map date (market_chart_rows cid cur prices))"
    by (rule market_chart_sorted_dates)
next
  fix r assume r: "r \<in> set (market_chart_rows cid cur prices)"
  note k = market_chart_rows_key [OF r]
  show "coin_id r = cid" using k by simp
  show "vs_currency r = cur" using k by simp
  show first: "find (\<lambda>q. chart_key q = chart_key r)
             (sort_key chart_key (map (chart_row cid cur) prices)) = Some r"
    using r by (rule market_chart_first)
  have "find (\<lambda>q. chart_key q = (cid, date r)) (map (chart_row cid cur) prices) = Some r"
    using first k by (simp add: find_sort_key)
  then show "map_of (map (\<lambda>tp. (date_of_ms (fst tp), snd tp)) prices) (date r) = Some (price r)"
    by (rule find_chart_row)
qed

theorem market_chart_keeps_first_per_date_witness:
  "obs ''bitcoin'' 0 1 \<in> set (market_chart_rows ''bitcoin'' ''usd''
       [(86400000, 3), (0, 1), (1, 2), (86400001, 4)])
   \<and> map_of (map (\<lambda>tp. (date_of_ms (fst tp), snd tp))
        ([(86400000, 3), (0, 1), (1, 2), (86400001, 4)] :: (int \<times> rat) list)) 0 = Some 1
   \<and> map price (market_chart_rows ''bitcoin'' ''usd''
       [(86400000, 3), (0, 1), (1, 2), (86400001, 4)]) = [1, 3]"
proof -
  let ?prices = "[(86400000, 3), (0, 1), (1, 2), (86400001, 4)] :: (int \<times> rat) list"
  have out: "market_chart_rows ''bitcoin'' ''usd'' ?prices
      = [obs ''bitcoin'' 0 1, obs ''bitcoin'' 1 3]"
    by code_simp
  have r: "obs ''bitcoin'' 0 1 \<in> set (market_chart_rows ''bitcoin'' ''usd'' ?prices)"
    unfolding out by simp
  have "map_of (map (\<lambda>tp. (date_of_ms (fst tp), snd tp)) ?prices) (date (obs ''bitcoin'' 0 1))
      = Some (price (obs ''bitcoin'' 0 1))"
    using market_chart_keeps_first_per_date [of "''bitcoin''" "''usd''" ?prices] r by blast
  then have m: "map_of (map (\<lambda>tp. (date_of_ms (fst tp), snd tp)) ?prices) 0 = Some 1"
    by (simp add: obs_def)
  have p: "map price (market_chart_rows ''bitcoin'' ''usd'' ?prices) = [1, 3]"
    unfolding out by (simp add: obs_def)
  show ?thesis using r m p by blast
qed

text \<open>
  Claim C4 as stated, that the last occurrence after the sort is kept, fails on two
  price points of the same day: the code keeps the first (price 1), keeping the last
  would give price 2.
\<close>

theorem market_chart_keeps_last_counterexample:
  "market_chart_rows ''bitcoin'' ''usd'' [(0, 1), (1, 2)] = [obs ''bitcoin'' 0 1]
   \<and> drop_duplicates_last chart_key
        (sort_key chart_key (map (chart_row ''bitcoin'' ''usd'') [(0, 1), (1, 2)]))
       = [obs ''bitcoin'' 0 2]
   \<and> market_chart_rows ''bitcoin'' ''usd'' [(0, 1), (1, 2)]
       \<noteq> drop_duplicates_last chart_key
            (sort_key chart_key (map (chart_row ''bitcoin'' ''usd'') [(0, 1), (1, 2)]))"
  by code_simp

end
